theory Spec2Isabelle
  imports Main "HOL-Library.Stream" "HOL-Library.Word" "HOL-Library.Signed_Division"
begin

section \<open>Package optional\<close>

text \<open>
  Every Go type has a zero value. The element types of this development are the types of
  class \<open>zero\<close>, whose \<open>0\<close> stands for the zero value of the Go type (all of Go's
  numeric types are of this kind).

  A panic is a value: a function that can panic returns \<open>string + 'r\<close>, with \<open>Inl\<close>
  carrying the panic's message. A call that never returns (a receive on a channel that
  nobody sends on, a loop over an endless iterator) is the value \<open>None\<close> of an
  \<open>option\<close> around the result.
\<close>

subsection \<open>Option\<close>

text \<open>\<^verbatim>\<open>type Option[T any] struct { some bool; value T }\<close>\<close>

record 'a Option =
  some :: bool
  val :: 'a

text \<open>\<^verbatim>\<open>func Some[T any](t T) Option[T] { return Option[T]{value: t, some: true} }\<close>\<close>

definition Some_opt :: "'a \<Rightarrow> 'a Option" where
  "Some_opt t = \<lparr>some = True, val = t\<rparr>"

text \<open>\<^verbatim>\<open>func None[T any]() Option[T] { return Option[T]{} }\<close>\<close>

definition None_opt :: "'a::zero Option" where
  "None_opt = \<lparr>some = False, val = 0\<rparr>"

definition IsSome :: "'a Option \<Rightarrow> bool" where
  "IsSome o' = some o'"

definition Get :: "'a Option \<Rightarrow> 'a" where
  "Get o' = val o'"

definition Expect :: "'a Option \<Rightarrow> string + 'a" where
  "Expect o' =
     (if \<not> IsSome o' then Inl ''optional: Expect() called on None''
      else Inr (val o'))"

text \<open>
  \<open>String\<close> formats the value with \<^verbatim>\<open>fmt.Sprintf("%+v", ...)\<close>; the formatting of a
  value of the element type is the parameter \<open>fmt\<close>.
\<close>

definition Option_String :: "('a \<Rightarrow> string) \<Rightarrow> 'a Option \<Rightarrow> string + string" where
  "Option_String fmt o' =
     (if IsSome o' then (case Expect o' of Inl p \<Rightarrow> Inl p | Inr v \<Rightarrow> Inr (fmt v))
      else Inr ''None'')"

subsection \<open>Result\<close>

text \<open>
  \<^verbatim>\<open>type Result[T any] struct { opt Option[T]; err error }\<close>

  An \<open>error\<close> is an interface value: \<open>None\<close> is the nil interface, \<open>Some m\<close> an
  error object whose \<open>Error()\<close> method returns the message \<open>m\<close>.
\<close>

type_synonym error = "string option"

record 'a Result =
  opt :: "'a Option"
  err :: error

text \<open>
  The composite literals \<^verbatim>\<open>Result[T]{opt: Some(t)}\<close> and \<^verbatim>\<open>Result[T]{err: err}\<close>
  leave the field they do not name at its zero value.
\<close>

definition Ok :: "'a \<Rightarrow> 'a Result" where
  "Ok t = \<lparr>opt = Some_opt t, err = None\<rparr>"

definition Err :: "error \<Rightarrow> 'a::zero Result" where
  "Err e = \<lparr>opt = None_opt, err = e\<rparr>"

text \<open>The zero value \<^verbatim>\<open>Result[T]{}\<close>: every field at its zero value.\<close>

definition Result_zero :: "'a::zero Result" where
  "Result_zero = \<lparr>opt = \<lparr>some = False, val = 0\<rparr>, err = None\<rparr>"

definition Result_Ok :: "'a Result \<Rightarrow> bool" where
  "Result_Ok r = IsSome (opt r)"

definition Result_Get :: "'a Result \<Rightarrow> 'a" where
  "Result_Get r = Get (opt r)"

definition Result_Err :: "'a Result \<Rightarrow> error" where
  "Result_Err r = err r"

definition Result_Expect :: "'a Result \<Rightarrow> string + 'a" where
  "Result_Expect r =
     (if \<not> Result_Ok r then Inl ''optional: Expect() called on error result''
      else Inr (val (opt r)))"

text \<open>
  \<^verbatim>\<open>return r.err.Error()\<close> calls a method on an interface value; on the nil interface
  the Go runtime panics with a nil pointer dereference.
\<close>

definition error_Error :: "error \<Rightarrow> string + string" where
  "error_Error e =
     (case e of
        None \<Rightarrow> Inl ''runtime error: invalid memory address or nil pointer dereference''
      | Some m \<Rightarrow> Inr m)"

definition Result_String :: "('a \<Rightarrow> string) \<Rightarrow> 'a Result \<Rightarrow> string + string" where
  "Result_String fmt r =
     (if Result_Ok r then Option_String fmt (opt r)
      else error_Error (err r))"

section \<open>Package iterator\<close>

subsection \<open>The three iterators\<close>

text \<open>
  \<^verbatim>\<open>type Slice[T any] struct { Values []T; index int }\<close>

  The cursor \<open>index\<close> is unexported, starts at 0 and is only ever incremented by
  \<open>Next\<close>, below the length of \<open>Values\<close>: it is a natural number.
\<close>

record 'a Slice =
  Values :: "'a list"
  index :: nat

text \<open>
  \<^verbatim>\<open>type Chan[T any] <-chan T\<close>

  A channel is nil, or holds the values sent and not yet received and whether it has
  been closed. The iterator only receives; no other goroutine sends while it does.
\<close>

datatype 'a Chan = NilChan | Chan (buffered: "'a list") (closed: bool)

text \<open>
  \<^verbatim>\<open>type Func[T any] func() optional.Option[T]\<close>

  A function value is nil, or a closure; a closure is determined by the results of its
  successive calls, a stream of options.
\<close>

datatype 'a Func = NilFunc | Func "'a Option stream"

text \<open>
  A value of the interface \<open>Iterator[T]\<close>: the nil interface, a \<^verbatim>\<open>*Slice[T]\<close>, a
  \<^verbatim>\<open>Chan[T]\<close>, a \<^verbatim>\<open>Func[T]\<close>, or the wrapper
  \<^verbatim>\<open>sorted[T] struct{ iterator.Iterator[T] }\<close> of package functional. The state a
  pointer leads to is carried in the value and returned updated by every operation.
\<close>

datatype 'a Iterator =
    NilIterator
  | SliceIterator "'a Slice"
  | ChanIterator "'a Chan"
  | FuncIterator "'a Func"
  | sorted "'a Iterator"

text \<open>\<^verbatim>\<open>func (s *Slice[T]) Count() int { return len(s.Values) - s.index }\<close>\<close>

definition Slice_Count :: "'a Slice \<Rightarrow> int" where
  "Slice_Count s = int (length (Values s)) - int (index s)"

definition Slice_Next :: "'a::zero Slice \<Rightarrow> 'a Option \<times> 'a Slice" where
  "Slice_Next s =
     (if int (length (Values s)) > int (index s)
      then (Some_opt (Values s ! (index s + 1 - 1)), s\<lparr>index := index s + 1\<rparr>)
      else (None_opt, s))"

text \<open>
  A receive \<^verbatim>\<open>v, ok := <-c\<close> takes the oldest buffered value; on an empty closed
  channel it yields \<open>ok = false\<close> at once; on an empty open channel and on a nil
  channel it never returns.
\<close>

definition Chan_Next :: "'a::zero Chan \<Rightarrow> ('a Option \<times> 'a Chan) option" where
  "Chan_Next c =
     (case c of
        NilChan \<Rightarrow> None
      | Chan [] cl \<Rightarrow> (if cl then Some (None_opt, c) else None)
      | Chan (v # vs) cl \<Rightarrow> Some (Some_opt v, Chan vs cl))"

definition Func_Next :: "'a::zero Func \<Rightarrow> 'a Option \<times> 'a Func" where
  "Func_Next f =
     (case f of
        Func g \<Rightarrow> (shd g, Func (stl g))
      | NilFunc \<Rightarrow> (None_opt, f))"

text \<open>
  The method \<open>Next\<close> of an interface value. On the nil interface the call panics; the
  wrapper \<open>sorted\<close> promotes the method of the iterator it embeds.
\<close>

fun Next :: "'a::zero Iterator \<Rightarrow> (string + 'a Option \<times> 'a Iterator) option" where
  "Next NilIterator =
     Some (Inl ''runtime error: invalid memory address or nil pointer dereference'')"
| "Next (SliceIterator s) =
     (case Slice_Next s of (o', s') \<Rightarrow> Some (Inr (o', SliceIterator s')))"
| "Next (ChanIterator c) =
     (case Chan_Next c of
        None \<Rightarrow> None
      | Some (o', c') \<Rightarrow> Some (Inr (o', ChanIterator c')))"
| "Next (FuncIterator f) =
     (case Func_Next f of (o', f') \<Rightarrow> Some (Inr (o', FuncIterator f')))"
| "Next (sorted it) =
     (case Next it of
        None \<Rightarrow> None
      | Some (Inl p) \<Rightarrow> Some (Inl p)
      | Some (Inr (o', it')) \<Rightarrow> Some (Inr (o', sorted it')))"

section \<open>Package functional: the combinators over iterators\<close>

text \<open>
  \<open>getSizeHint\<close>: the type assertion \<^verbatim>\<open>iter.(iterator.Enumerable[T])\<close> succeeds for a
  \<^verbatim>\<open>*Slice[T]\<close> only, the one type with a \<open>Count\<close> method (\<open>sorted\<close> embeds the
  interface \<open>Iterator[T]\<close>, which has none).
\<close>

definition defaultSize :: int where
  "defaultSize = 16"

fun getSizeHint :: "'a Iterator \<Rightarrow> int" where
  "getSizeHint (SliceIterator s) =
     (let count = Slice_Count s in if count > 0 then count else defaultSize)"
| "getSizeHint _ = defaultSize"

text \<open>
  \<open>allocate\<close> returns an empty slice whose capacity is the size hint; the capacity of a
  slice is not observable in the values the combinators return.
\<close>

definition allocate :: "'b Iterator \<Rightarrow> 'a list" where
  "allocate iter = (let capacity = getSizeHint iter in [])"

text \<open>
  \<open>ForEach\<close>. The callback \<^verbatim>\<open>fn func(T, Break)\<close> is a closure over variables of its
  caller: it takes the element and the current value of those variables and returns
  their new value, and whether it has called \<open>stop\<close>.
\<close>

partial_function (option) ForEach_loop ::
  "('a \<Rightarrow> 's \<Rightarrow> 's \<times> bool) \<Rightarrow> 'a::zero Iterator \<Rightarrow> 's \<Rightarrow> (string + 'a Iterator \<times> 's) option"
where
  "ForEach_loop fn iter st =
     (case Next iter of
        None \<Rightarrow> None
      | Some (Inl p) \<Rightarrow> Some (Inl p)
      | Some (Inr (o', iter')) \<Rightarrow>
          (if IsSome o' then
             (case Expect o' of
                Inl p \<Rightarrow> Some (Inl p)
              | Inr x \<Rightarrow>
                  (case fn x st of
                     (st', stopped) \<Rightarrow>
                       if stopped then Some (Inr (iter', st'))
                       else ForEach_loop fn iter' st'))
           else Some (Inr (iter', st))))"

definition ForEach ::
  "'a::zero Iterator \<Rightarrow> ('a \<Rightarrow> 's \<Rightarrow> 's \<times> bool) \<Rightarrow> 's \<Rightarrow> (string + 'a Iterator \<times> 's) option"
where
  "ForEach iter fn st =
     (case iter of
        NilIterator \<Rightarrow> Some (Inr (iter, st))
      | _ \<Rightarrow> ForEach_loop fn iter st)"

text \<open>\<open>Collect\<close> returns the collected slice and the iterator as the loop left it.\<close>

definition Collect :: "'a::zero Iterator \<Rightarrow> (string + 'a Iterator \<times> 'a list) option" where
  "Collect iter = ForEach iter (\<lambda>t slice. (slice @ [t], False)) (allocate iter)"

text \<open>
  \<open>Any\<close>: the variable \<open>any\<close> is the state of the callback, which stops the loop as
  soon as it is set. \<open>All\<close> is its dual.
\<close>

definition Any :: "'a::zero Iterator \<Rightarrow> ('a \<Rightarrow> bool) \<Rightarrow> (string + 'a Iterator \<times> bool) option" where
  "Any iter fn = ForEach iter (\<lambda>t any. (fn t, fn t)) False"

definition All :: "'a::zero Iterator \<Rightarrow> ('a \<Rightarrow> bool) \<Rightarrow> (string + 'a Iterator \<times> bool) option" where
  "All iter fn =
     (case Any iter (\<lambda>t. \<not> fn t) of
        None \<Rightarrow> None
      | Some (Inl p) \<Rightarrow> Some (Inl p)
      | Some (Inr (iter', any)) \<Rightarrow> Some (Inr (iter', \<not> any)))"

text \<open>
  \<open>Equal\<close> is generic in a \<open>comparable\<close> element type and compares elements with
  Go's operator \<open>!=\<close> of that type, the parameter \<open>ne\<close>. On integers, booleans and
  strings \<open>!=\<close> is the negation of identity; on the floating-point types it is not,
  since there \<open>NaN != NaN\<close> holds.

  The loop over the indices of the two collected slices, from \<open>idx\<close> on.
\<close>

function Equal_loop :: "('a \<Rightarrow> 'a \<Rightarrow> bool) \<Rightarrow> 'a list \<Rightarrow> 'a list \<Rightarrow> nat \<Rightarrow> bool" where
  "Equal_loop ne aValues bValues idx =
     (if idx < length aValues then
        (if ne (aValues ! idx) (bValues ! idx) then False
         else Equal_loop ne aValues bValues (idx + 1))
      else True)"
  by pat_completeness auto
termination
  by (relation "measure (\<lambda>(ne, aValues, bValues, idx). length aValues - idx)") auto

declare Equal_loop.simps [simp del]

text \<open>
  \<open>Equal\<close> returns its verdict and the two iterators as it left them: untouched when
  the size hints differ, drained otherwise (\<open>a\<close> first, then \<open>b\<close>).
\<close>

definition Equal ::
  "('a \<Rightarrow> 'a \<Rightarrow> bool) \<Rightarrow> 'a::zero Iterator \<Rightarrow> 'a Iterator
     \<Rightarrow> (string + 'a Iterator \<times> 'a Iterator \<times> bool) option"
where
  "Equal ne a b =
     (if getSizeHint a \<noteq> getSizeHint b then Some (Inr (a, b, False))
      else
        (case Collect a of
           None \<Rightarrow> None
         | Some (Inl p) \<Rightarrow> Some (Inl p)
         | Some (Inr (a', aValues)) \<Rightarrow>
             (case Collect b of
                None \<Rightarrow> None
              | Some (Inl p) \<Rightarrow> Some (Inl p)
              | Some (Inr (b', bValues)) \<Rightarrow>
                  (if length aValues \<noteq> length bValues then Some (Inr (a', b', False))
                   else Some (Inr (a', b', Equal_loop ne aValues bValues 0))))))"

text \<open>
  \<open>Filter\<close>, \<open>Map\<close> and \<open>Reduce\<close> return the source iterator as the loop left it and
  their result; the result of \<open>Filter\<close> and \<open>Map\<close> is a new \<^verbatim>\<open>*Slice\<close> with its
  cursor at 0.
\<close>

definition Filter ::
  "'a::zero Iterator \<Rightarrow> ('a \<Rightarrow> bool) \<Rightarrow> (string + 'a Iterator \<times> 'a Iterator) option"
where
  "Filter iter fn =
     (case ForEach iter (\<lambda>t vs. (if fn t then vs @ [t] else vs, False)) (allocate iter) of
        None \<Rightarrow> None
      | Some (Inl p) \<Rightarrow> Some (Inl p)
      | Some (Inr (iter', vs)) \<Rightarrow>
          Some (Inr (iter', SliceIterator \<lparr>Values = vs, index = 0\<rparr>)))"

definition Map ::
  "'a::zero Iterator \<Rightarrow> ('a \<Rightarrow> 'b) \<Rightarrow> (string + 'a Iterator \<times> 'b Iterator) option"
where
  "Map iter fn =
     (case ForEach iter (\<lambda>x vs. (vs @ [fn x], False)) (allocate iter) of
        None \<Rightarrow> None
      | Some (Inl p) \<Rightarrow> Some (Inl p)
      | Some (Inr (iter', vs)) \<Rightarrow>
          Some (Inr (iter', SliceIterator \<lparr>Values = vs, index = 0\<rparr>)))"

text \<open>\<^verbatim>\<open>var accumulator To\<close> starts at the zero value of the result type.\<close>

definition Reduce ::
  "'a::zero Iterator \<Rightarrow> ('b \<Rightarrow> 'a \<Rightarrow> 'b) \<Rightarrow> (string + 'a Iterator \<times> 'b::zero) option"
where
  "Reduce iter fn = ForEach iter (\<lambda>x accumulator. (fn accumulator x, False)) 0"

text \<open>
  \<open>Sort\<close>. The functions \<open>sort.IsSorted\<close>, \<open>sort.Stable\<close> and \<open>sort.Sort\<close> belong to
  Go's standard library; applied to a \<open>comparables[T]\<close>, whose \<open>Less\<close> is the element
  type's, they are the three fields of the parameter \<open>pkg\<close> (the two sorts return the
  slice they have rearranged in place).
\<close>

record 'a sort_package =
  sort_IsSorted :: "'a list \<Rightarrow> bool"
  sort_Stable :: "'a list \<Rightarrow> 'a list"
  sort_Sort :: "'a list \<Rightarrow> 'a list"

text \<open>The type assertion \<^verbatim>\<open>_, ok := iter.(sorted[T])\<close>.\<close>

fun is_sorted :: "'a Iterator \<Rightarrow> bool" where
  "is_sorted (sorted it) = True"
| "is_sorted _ = False"

text \<open>
  \<open>Sort\<close> returns the argument as it left it and its result. On the short circuit
  the result is the argument itself, which has not been touched.
\<close>

definition Sort ::
  "'a sort_package \<Rightarrow> 'a::zero Iterator \<Rightarrow> bool \<Rightarrow> (string + 'a Iterator \<times> 'a Iterator) option"
where
  "Sort pkg iter stable' =
     (if is_sorted iter then Some (Inr (iter, iter))
      else
        (case Collect iter of
           None \<Rightarrow> None
         | Some (Inl p) \<Rightarrow> Some (Inl p)
         | Some (Inr (iter', values)) \<Rightarrow>
             Some (Inr (iter', sorted (SliceIterator
               \<lparr>Values =
                  (if \<not> sort_IsSorted pkg values then
                     (if stable' then sort_Stable pkg values else sort_Sort pkg values)
                   else values),
                index = 0\<rparr>)))))"

section \<open>Package iterator: waiting for the next value\<close>

text \<open>
  Of a \<open>context.Context\<close> the code reads one thing: whether the channel \<open>Done()\<close> is
  closed, that is, whether the context has been cancelled.
\<close>

datatype Context = Context (canceled: bool)

text \<open>\<^verbatim>\<open>func (s *Slice[T]) WaitForNext(_ context.Context) optional.Option[T] { return s.Next() }\<close>\<close>

definition Slice_WaitForNext :: "Context \<Rightarrow> 'a::zero Slice \<Rightarrow> 'a Option \<times> 'a Slice" where
  "Slice_WaitForNext ctx s = Slice_Next s"

text \<open>
  A \<open>select\<close> runs one of its cases that can proceed, chosen at random when several
  can, and waits while none can. \<open>Chan.WaitForNext\<close> is modelled by the set of its
  possible outcomes; the empty set means that it never returns.
\<close>

definition Chan_WaitForNext :: "Context \<Rightarrow> 'a::zero Chan \<Rightarrow> ('a Option \<times> 'a Chan) set" where
  "Chan_WaitForNext ctx c =
     (case c of
        NilChan \<Rightarrow> {}
      | Chan [] cl \<Rightarrow> (if cl then {(None_opt, c)} else {})
      | Chan (v # vs) cl \<Rightarrow> {(Some_opt v, Chan vs cl)})
     \<union> (if canceled ctx then {(None_opt, c)} else {})"

text \<open>
  \<open>waitForNext\<close> starts a goroutine that calls \<open>iter.Next()\<close> and sends the result on
  a channel of capacity 1, then selects between that channel and \<open>ctx.Done()\<close>. The
  goroutine makes its call whatever the \<open>select\<close> does. An outcome is what the caller
  gets, with the iterator as the goroutine's call leaves it; a panic in the goroutine
  ends the program.
\<close>

definition waitForNext ::
  "Context \<Rightarrow> 'a::zero Iterator \<Rightarrow> (string + 'a Option \<times> 'a Iterator) set"
where
  "waitForNext ctx iter =
     (case Next iter of
        None \<Rightarrow> (if canceled ctx then {Inr (None_opt, iter)} else {})
      | Some (Inl p) \<Rightarrow> {Inl p}
      | Some (Inr (o', iter')) \<Rightarrow>
          {Inr (o', iter')} \<union> (if canceled ctx then {Inr (None_opt, iter')} else {}))"

text \<open>
  The package-level \<open>WaitForNext\<close>: the type assertion
  \<^verbatim>\<open>iter.(BlockingIterator[T])\<close> succeeds for a \<^verbatim>\<open>*Slice[T]\<close> and for a
  \<^verbatim>\<open>Chan[T]\<close>.
\<close>

definition WaitForNext ::
  "Context \<Rightarrow> 'a::zero Iterator \<Rightarrow> (string + 'a Option \<times> 'a Iterator) set"
where
  "WaitForNext ctx iter =
     (case iter of
        SliceIterator s \<Rightarrow>
          (case Slice_WaitForNext ctx s of (o', s') \<Rightarrow> {Inr (o', SliceIterator s')})
      | ChanIterator c \<Rightarrow>
          (\<lambda>(o', c'). Inr (o', ChanIterator c')) ` Chan_WaitForNext ctx c
      | _ \<Rightarrow> waitForNext ctx iter)"

section \<open>Package functional: the combinators over slices\<close>

text \<open>\<^verbatim>\<open>func bork(v interface{}) { panic(fmt.Sprintf("functional: %+v", v)) }\<close>\<close>

definition bork :: "string \<Rightarrow> string" where
  "bork v = ''functional: '' @ v"

text \<open>
  \<open>Chain\<close>. A function value is \<open>None\<close> when nil. The loop over \<open>fns\<close>, with the
  function \<open>f\<close> composed so far.
\<close>

fun Chain_loop :: "('a \<Rightarrow> 'a) \<Rightarrow> ('a \<Rightarrow> 'a) option list \<Rightarrow> string + ('a \<Rightarrow> 'a)" where
  "Chain_loop f [] = Inr f"
| "Chain_loop f (fn # fns) =
     (case fn of
        None \<Rightarrow> Inl (bork ''nil chain function'')
      | Some fnCopy \<Rightarrow> Chain_loop (\<lambda>t. f (fnCopy t)) fns)"

definition Chain :: "('a \<Rightarrow> 'a) option list \<Rightarrow> string + ('a \<Rightarrow> 'a)" where
  "Chain fns = Chain_loop (\<lambda>t. t) fns"

definition Compose :: "('m \<Rightarrow> 'o) option \<Rightarrow> ('i \<Rightarrow> 'm) option \<Rightarrow> string + ('i \<Rightarrow> 'o)" where
  "Compose f g =
     (case f of
        None \<Rightarrow> Inl (bork ''nil f'')
      | Some f' \<Rightarrow>
          (case g of
             None \<Rightarrow> Inl (bork ''nil g'')
           | Some g' \<Rightarrow> Inr (\<lambda>x. f' (g' x))))"

text \<open>The loop of \<open>Reduce\<close> over a slice, and \<open>Reduce\<close> itself.\<close>

fun Reduce_range :: "('b \<Rightarrow> 'a \<Rightarrow> 'b) \<Rightarrow> 'b \<Rightarrow> 'a list \<Rightarrow> 'b" where
  "Reduce_range reducer accum [] = accum"
| "Reduce_range reducer accum (v # list) = Reduce_range reducer (reducer accum v) list"

definition Reduce_list :: "'a list \<Rightarrow> ('b \<Rightarrow> 'a \<Rightarrow> 'b) option \<Rightarrow> string + 'b::zero" where
  "Reduce_list list reducer =
     (case reducer of
        None \<Rightarrow> Inl (bork ''nil reducer'')
      | Some r \<Rightarrow> Inr (Reduce_range r 0 list))"

text \<open>
  The functions of the example of \<open>Chain\<close>, on Go's 64-bit \<open>int\<close>: addition and
  multiplication wrap around, division truncates towards zero.
\<close>

definition addOne :: "64 word \<Rightarrow> 64 word" where
  "addOne i = i + 1"

definition square :: "64 word \<Rightarrow> 64 word" where
  "square i = i * i"

definition halve :: "64 word \<Rightarrow> 64 word" where
  "halve i = word_of_int (sint i sdiv 2)"

section \<open>The iterators of the tests\<close>

text \<open>
  The tests build a fresh iterator over a sequence with the composite literal
  \<^verbatim>\<open>&iterator.Slice[T]{Values: values}\<close>, whose cursor is 0.
\<close>

definition iteratorOver :: "'a list \<Rightarrow> 'a Iterator" where
  "iteratorOver values = SliceIterator \<lparr>Values = values, index = 0\<rparr>"

text \<open>
  \<open>funcIteratorOf\<close> sends the values on a channel, closes it and returns the closure
  \<^verbatim>\<open>func() optional.Option[T] { return iterator.Chan[T](ch).Next() }\<close>: its calls
  return the values in order, then \<open>None\<close> for ever.
\<close>

definition funcIteratorOf :: "'a::zero list \<Rightarrow> 'a Func" where
  "funcIteratorOf v = Func (map Some_opt v @- sconst None_opt)"

text \<open>Go's \<open>int\<close> on a 64-bit platform.\<close>

type_synonym go_int = "64 word"

text \<open>The operator \<open>!=\<close> of Go's \<open>int\<close>.\<close>

definition int_ne :: "go_int \<Rightarrow> go_int \<Rightarrow> bool" where
  "int_ne x y = (x \<noteq> y)"

text \<open>
  Go's \<open>float64\<close>, as far as its comparison goes: a value is a number or NaN (the
  numbers are kept to the integers, which is all that is used here). Its zero value is
  the number 0. The operator \<open>!=\<close> follows IEEE 754: it holds as soon as one operand
  is NaN, also between NaN and itself.
\<close>

datatype float64 = Num int | NaN

instantiation float64 :: zero
begin

definition zero_float64 :: float64 where
  "zero_float64 = Num 0"

instance ..

end

fun float64_ne :: "float64 \<Rightarrow> float64 \<Rightarrow> bool" where
  "float64_ne (Num x) (Num y) = (x \<noteq> y)"
| "float64_ne _ _ = True"

section \<open>The loop of \<open>ForEach\<close>\<close>

text \<open>
  Over a \<^verbatim>\<open>*Slice\<close> and with a callback that never stops it, the loop returns: it
  folds the callback over the elements from the cursor on and leaves the cursor at the end.
\<close>

lemma ForEach_loop_Slice:
  assumes ns: "\<And>x st. snd (fn x st) = False"
  shows "ForEach_loop fn (SliceIterator s) st =
     Some (Inr (SliceIterator (s\<lparr>index := max (index s) (length (Values s))\<rparr>),
                foldl (\<lambda>a x. fst (fn x a)) st (drop (index s) (Values s))))"
proof (induction "length (Values s) - index s" arbitrary: s st)
  case 0
  then have le: "length (Values s) \<le> index s" by simp
  then have "Slice_Next s = (None_opt, s)"
    by (simp add: Slice_Next_def)
  moreover have "s\<lparr>index := max (index s) (length (Values s))\<rparr> = s"
    using le by (simp add: max_def)
  ultimately show ?case
    using le
    by (subst ForEach_loop.simps) (simp add: None_opt_def IsSome_def)
next
  case (Suc n)
  then have lt: "index s < length (Values s)" by simp
  let ?s' = "s\<lparr>index := index s + 1\<rparr>"
  have nx: "Slice_Next s = (Some_opt (Values s ! index s), ?s')"
    using lt by (simp add: Slice_Next_def)
  have n: "n = length (Values ?s') - index ?s'"
    using Suc.hyps(2) by simp
  have ih: "ForEach_loop fn (SliceIterator ?s') st' =
     Some (Inr (SliceIterator (?s'\<lparr>index := max (index ?s') (length (Values ?s'))\<rparr>),
                foldl (\<lambda>a x. fst (fn x a)) st' (drop (index ?s') (Values ?s'))))" for st'
    by (rule Suc.hyps(1) [OF n])
  have dr: "drop (index s) (Values s) = Values s ! index s # drop (Suc (index s)) (Values s)"
    using lt by (simp add: Cons_nth_drop_Suc)
  have mx: "max (Suc (index s)) (length (Values s)) = max (index s) (length (Values s))"
    using lt by (simp add: max_def)
  obtain st' b where fx: "fn (Values s ! index s) st = (st', b)"
    by (cases "fn (Values s ! index s) st")
  then have b: "b = False" using ns [of "Values s ! index s" st] by simp
  have ih': "ForEach_loop fn (SliceIterator (s\<lparr>index := Suc (index s)\<rparr>)) st' =
     Some (Inr (SliceIterator (s\<lparr>index := max (index s) (length (Values s))\<rparr>),
                foldl (\<lambda>a x. fst (fn x a)) st' (drop (Suc (index s)) (Values s))))"
    using ih [of st'] by (simp add: mx)
  show ?case
    by (subst ForEach_loop.simps)
      (simp add: nx Some_opt_def IsSome_def Expect_def fx b ih' dr)
qed

lemma foldl_snoc: "foldl (\<lambda>a x. a @ [f x]) acc xs = acc @ map f xs"
  by (induction xs arbitrary: acc) simp_all

lemma Collect_Slice:
  "Collect (SliceIterator s) =
     Some (Inr (SliceIterator (s\<lparr>index := max (index s) (length (Values s))\<rparr>),
                drop (index s) (Values s)))"
  using foldl_snoc [of "\<lambda>x. x" "[]" "drop (index s) (Values s)"]
  by (simp add: Collect_def ForEach_def allocate_def ForEach_loop_Slice)

text \<open>
  Two callbacks that keep a relation between their states and stop together take the
  loop through the same iterators: when it returns with one, it returns with the other,
  in related states.
\<close>

lemma ForEach_loop_sim:
  assumes run: "ForEach_loop f iter s = Some r" and R: "R s t"
    and step: "\<And>x s t. R s t \<Longrightarrow> R (fst (f x s)) (fst (g x t)) \<and> snd (f x s) = snd (g x t)"
  shows "\<exists>r'. ForEach_loop g iter t = Some r' \<and>
          rel_sum (=) (\<lambda>(i, s') (i', t'). i = i' \<and> R s' t') r r'"
proof -
  define P where "P = (\<lambda>fn iter s r. fn = f \<longrightarrow> (\<forall>t. R s t \<longrightarrow>
       (\<exists>r'. ForEach_loop g iter t = Some r' \<and>
          rel_sum (=) (\<lambda>(i, s') (i', t'). i = i' \<and> R s' t') r r')))"
  have "P f iter s r"
  proof (rule ForEach_loop.raw_induct [where P = P, OF _ run])
    fix loop fn iter s r
    assume IH: "\<And>fn iter s r. loop fn iter s = Some r \<Longrightarrow> P fn iter s r"
      and body0: "(case Next iter of None \<Rightarrow> None | Some (Inl p) \<Rightarrow> Some (Inl p)
        | Some (Inr (o', iter')) \<Rightarrow>
            if IsSome o'
            then case Expect o' of Inl p \<Rightarrow> Some (Inl p)
                 | Inr x \<Rightarrow>
                     case fn x s of
                     (st', stopped) \<Rightarrow>
                       if stopped then Some (Inr (iter', st'))
                       else loop fn iter' st'
            else Some (Inr (iter', s))) = Some r"
    show "P fn iter s r"
      unfolding P_def
    proof (intro impI allI)
      fix t
      assume fn: "fn = f" and R: "R s t"
      note body = body0 [unfolded fn]
      show "\<exists>r'. ForEach_loop g iter t = Some r' \<and>
            rel_sum (=) (\<lambda>(i, s') (i', t'). i = i' \<and> R s' t') r r'"
      proof (cases "Next iter")
        case None
        with body show ?thesis by simp
      next
        case (Some a)
        show ?thesis
        proof (cases a)
          case (Inl p)
          with Some body show ?thesis
            by (subst ForEach_loop.simps) auto
        next
          case (Inr b)
          obtain o' iter' where b: "b = (o', iter')" by (cases b)
          show ?thesis
          proof (cases "IsSome o'")
            case False
            with Some Inr b body R show ?thesis
              by (subst ForEach_loop.simps) auto
          next
            case True
            then have ex: "Expect o' = Inr (val o')" by (simp add: Expect_def)
            obtain s' st where fs: "f (val o') s = (s', st)" by (cases "f (val o') s")
            obtain t' st2 where gt: "g (val o') t = (t', st2)" by (cases "g (val o') t")
            from step [OF R, of "val o'"] fs gt have R': "R s' t'" and st: "st2 = st"
              by simp_all
            show ?thesis
            proof (cases st)
              case True
              with Some Inr b \<open>IsSome o'\<close> ex fs gt st body R' show ?thesis
                by (subst ForEach_loop.simps) auto
            next
              case False
              with Some Inr b \<open>IsSome o'\<close> ex fs body have "loop f iter' s' = Some r"
                by simp
              from IH [OF this] R' obtain r' where
                "ForEach_loop g iter' t' = Some r'"
                "rel_sum (=) (\<lambda>(i, s') (i', t'). i = i' \<and> R s' t') r r'"
                unfolding P_def by blast
              with Some Inr b \<open>IsSome o'\<close> ex gt st False show ?thesis
                by (subst ForEach_loop.simps) auto
            qed
          qed
        qed
      qed
    qed
  qed
  with R show ?thesis unfolding P_def by blast
qed

lemma ForEach_sim:
  assumes "ForEach iter f s = Some r" and "R s t"
    and "\<And>x s t. R s t \<Longrightarrow> R (fst (f x s)) (fst (g x t)) \<and> snd (f x s) = snd (g x t)"
  shows "\<exists>r'. ForEach iter g t = Some r' \<and>
          rel_sum (=) (\<lambda>(i, s') (i', t'). i = i' \<and> R s' t') r r'"
proof (cases "iter = NilIterator")
  case True
  with assms(1,2) show ?thesis by (auto simp: ForEach_def)
next
  case False
  then have "ForEach iter f s = ForEach_loop f iter s" "ForEach iter g t = ForEach_loop g iter t"
    by (auto simp: ForEach_def split: Iterator.splits)
  with ForEach_loop_sim [of f iter s r R t g] assms show ?thesis by simp
qed

section \<open>Collect\<close>

lemma Collect_iteratorOver:
  "Collect (iteratorOver S) = Some (Inr (SliceIterator \<lparr>Values = S, index = length S\<rparr>, S))"
  by (simp add: iteratorOver_def Collect_Slice)


text \<open>
  Claim C2. For every sequence \<open>S\<close>, \<open>Collect\<close> applied to a fresh bounded-sequence
  iterator over \<open>S\<close> returns, and what it returns is exactly \<open>S\<close>: the same elements
  in the same order. It leaves the iterator's cursor at the end of \<open>S\<close>.
\<close>

theorem Collect_roundtrip:
  "Collect (iteratorOver S) = Some (Inr (SliceIterator \<lparr>Values = S, index = length S\<rparr>, S))"
  by (simp add: iteratorOver_def Collect_Slice)

section \<open>Equal\<close>

lemma Equal_loop_drop:
  "length aValues = length bValues \<Longrightarrow>
   Equal_loop ne aValues bValues idx
     = list_all2 (\<lambda>x y. \<not> ne x y) (drop idx aValues) (drop idx bValues)"
proof (induction ne aValues bValues idx rule: Equal_loop.induct)
  case (1 ne aValues bValues idx)
  show ?case
  proof (cases "idx < length aValues")
    case False
    with "1.prems" show ?thesis by (subst Equal_loop.simps) simp
  next
    case True
    with "1.prems" have da: "drop idx aValues = aValues ! idx # drop (Suc idx) aValues"
      and db: "drop idx bValues = bValues ! idx # drop (Suc idx) bValues"
      by (simp_all add: Cons_nth_drop_Suc)
    show ?thesis
    proof (cases "ne (aValues ! idx) (bValues ! idx)")
      case ne: True
      with True da db show ?thesis by (subst Equal_loop.simps) simp
    next
      case eq: False
      have "Equal_loop ne aValues bValues (idx + 1)
              = list_all2 (\<lambda>x y. \<not> ne x y) (drop (idx + 1) aValues) (drop (idx + 1) bValues)"
        using "1.IH" [OF True eq "1.prems"] .
      with True eq da db show ?thesis
        by (subst Equal_loop.simps) simp
    qed
  qed
qed

lemma getSizeHint_iteratorOver:
  "getSizeHint (iteratorOver S) = (if S = [] then 16 else int (length S))"
  by (simp add: iteratorOver_def Slice_Count_def defaultSize_def)

text \<open>
  On two fresh bounded-sequence iterators \<open>Equal\<close> returns, and it answers true
  exactly when the sequences have one length and \<open>!=\<close> holds at no index.
\<close>

lemma Equal_iteratorOver:
  "map_option (map_sum id (\<lambda>(a', b', verdict). verdict)) (Equal ne (iteratorOver S) (iteratorOver T))
     = Some (Inr (list_all2 (\<lambda>x y. \<not> ne x y) S T))"
proof (cases "getSizeHint (iteratorOver S) = getSizeHint (iteratorOver T)")
  case False
  have "S = [] \<longleftrightarrow> T = []" if "length S = length T"
    using that by (cases S; cases T) simp_all
  with False have "length S \<noteq> length T"
    by (auto simp: getSizeHint_iteratorOver split: if_splits)
  then have "\<not> list_all2 (\<lambda>x y. \<not> ne x y) S T"
    by (auto dest: list_all2_lengthD)
  with False show ?thesis by (simp add: Equal_def)
next
  case True
  show ?thesis
  proof (cases "length S = length T")
    case False
    then have "\<not> list_all2 (\<lambda>x y. \<not> ne x y) S T"
      by (auto dest: list_all2_lengthD)
    with True False show ?thesis
      by (simp add: Equal_def Collect_iteratorOver)
  next
    case len: True
    with True show ?thesis
      by (simp add: Equal_def Collect_iteratorOver Equal_loop_drop)
  qed
qed

lemma list_all2_not_neq: "list_all2 (\<lambda>x y. \<not> x \<noteq> y) S T = (S = T)"
  by (simp add: list.rel_eq [unfolded fun_eq_iff, rule_format])

text \<open>
  Claim C3 says that \<open>Equal\<close> is reflexive on sequences of comparable elements.
  \<open>float64\<close> is comparable, and on the fresh iterators over \<open>[NaN]\<close> and \<open>[NaN]\<close>,
  the same sequence twice, \<open>Equal\<close> answers false: the loop finds \<open>NaN != NaN\<close> at
  index 0.
\<close>

theorem Equal_NaN_counterexample:
  "Equal float64_ne (iteratorOver [NaN]) (iteratorOver [NaN])
     = Some (Inr (SliceIterator \<lparr>Values = [NaN], index = 1\<rparr>,
                  SliceIterator \<lparr>Values = [NaN], index = 1\<rparr>, False))"
  by (simp add: Equal_def getSizeHint_iteratorOver Collect_iteratorOver Equal_loop_drop)

text \<open>
  Claim C3, amended. On fresh bounded-sequence iterators over sequences \<open>S\<close> and \<open>T\<close>
  of comparable elements, \<open>Equal\<close> returns, and it answers true exactly when \<open>S\<close>
  and \<open>T\<close> have the same length and, at every index, elements between which \<open>!=\<close>
  does not hold. On an element type whose \<open>!=\<close> is the negation of identity (every
  comparable type without floating-point values) this is structural equality, so that
  \<open>Equal\<close> is reflexive and symmetric there; over the integer sequences \<open>[1, 2]\<close> and
  \<open>[2, 1]\<close> it is false and over \<open>[2, 1]\<close> and \<open>[2, 1]\<close> it is true. The two
  arguments are distinct iterators.
\<close>

theorem Equal_structural:
  "map_option (map_sum id (\<lambda>(a', b', verdict). verdict)) (Equal ne (iteratorOver S) (iteratorOver T))
     = Some (Inr (list_all2 (\<lambda>x y. \<not> ne x y) S T))
   \<and> ((\<forall>x y. ne x y = (x \<noteq> y)) \<longrightarrow>
        map_option (map_sum id (\<lambda>(a', b', verdict). verdict)) (Equal ne (iteratorOver S) (iteratorOver T))
          = Some (Inr (S = T))
        \<and> map_option (map_sum id (\<lambda>(a', b', verdict). verdict)) (Equal ne (iteratorOver S) (iteratorOver S))
          = Some (Inr True)
        \<and> map_option (map_sum id (\<lambda>(a', b', verdict). verdict)) (Equal ne (iteratorOver S) (iteratorOver T))
          = map_option (map_sum id (\<lambda>(a', b', verdict). verdict)) (Equal ne (iteratorOver T) (iteratorOver S)))
   \<and> Equal int_ne (iteratorOver [1, 2]) (iteratorOver [2, 1])
     = Some (Inr (SliceIterator \<lparr>Values = [1, 2], index = 2\<rparr>,
                  SliceIterator \<lparr>Values = [2, 1], index = 2\<rparr>, False))
   \<and> Equal int_ne (iteratorOver [2, 1]) (iteratorOver [2, 1])
     = Some (Inr (SliceIterator \<lparr>Values = [2, 1], index = 2\<rparr>,
                  SliceIterator \<lparr>Values = [2, 1], index = 2\<rparr>, True))"
proof -
  have general: "map_option (map_sum id (\<lambda>(a', b', verdict). verdict)) (Equal ne (iteratorOver S) (iteratorOver T))
     = Some (Inr (list_all2 (\<lambda>x y. \<not> ne x y) S T))"
    by (rule Equal_iteratorOver)
  have identity: "map_option (map_sum id (\<lambda>(a', b', verdict). verdict)) (Equal ne (iteratorOver A) (iteratorOver B))
     = Some (Inr (A = B))" if "\<forall>x y. ne x y = (x \<noteq> y)" for A B
  proof -
    from that have "(\<lambda>x y. \<not> ne x y) = (\<lambda>x y. \<not> x \<noteq> y)" by (simp add: fun_eq_iff)
    then show ?thesis by (simp only: Equal_iteratorOver list_all2_not_neq)
  qed
  have differ: "Equal int_ne (iteratorOver [1, 2]) (iteratorOver [2, 1])
     = Some (Inr (SliceIterator \<lparr>Values = [1, 2], index = 2\<rparr>,
                  SliceIterator \<lparr>Values = [2, 1], index = 2\<rparr>, False))"
    by (simp add: Equal_def getSizeHint_iteratorOver Collect_iteratorOver Equal_loop_drop int_ne_def)
  have same: "Equal int_ne (iteratorOver [2, 1]) (iteratorOver [2, 1])
     = Some (Inr (SliceIterator \<lparr>Values = [2, 1], index = 2\<rparr>,
                  SliceIterator \<lparr>Values = [2, 1], index = 2\<rparr>, True))"
    by (simp add: Equal_def getSizeHint_iteratorOver Collect_iteratorOver Equal_loop_drop int_ne_def)
  have sym: "(A = B) = (B = A)" for A B :: "'a list" by auto
  show ?thesis
    using general differ same by (auto simp: identity sym [of S T])
qed

theorem Equal_structural_witness:
  "(\<forall>x y. int_ne x y = (x \<noteq> y))
   \<and> map_option (map_sum id (\<lambda>(a', b', verdict). verdict))
        (Equal int_ne (iteratorOver [1, 2]) (iteratorOver [2, 1])) = Some (Inr False)
   \<and> map_option (map_sum id (\<lambda>(a', b', verdict). verdict))
        (Equal int_ne (iteratorOver [1, 2]) (iteratorOver [1, 2])) = Some (Inr True)
   \<and> map_option (map_sum id (\<lambda>(a', b', verdict). verdict))
        (Equal int_ne (iteratorOver [1, 2]) (iteratorOver [2, 1]))
     = map_option (map_sum id (\<lambda>(a', b', verdict). verdict))
        (Equal int_ne (iteratorOver [2, 1]) (iteratorOver [1, 2]))"
proof -
  have h: "\<forall>x y. int_ne x y = (x \<noteq> y)"
    by (simp add: int_ne_def)
  have e: "([1, 2 :: go_int] = [2, 1]) = False"
    by simp
  note inst = Equal_structural [of int_ne "[1, 2]" "[2, 1]", THEN conjunct2, THEN conjunct1,
      THEN mp, OF h]
  from inst [unfolded e] h show ?thesis by blast
qed

lemma Collect_funcIteratorOf_123:
  "Collect (FuncIterator (funcIteratorOf [1, 2, 3 :: go_int]))
     = Some (Inr (FuncIterator (Func (sconst None_opt)), [1, 2, 3]))"
  by (simp add: Collect_def ForEach_def allocate_def funcIteratorOf_def ForEach_loop.simps
        Func_Next_def Some_opt_def None_opt_def IsSome_def Expect_def)

text \<open>
  Claim C4. There is a pair of iterators that yield the same sequence and that \<open>Equal\<close>
  calls unequal: the function-backed iterator over \<open>[1, 2, 3]\<close> has no \<open>Count\<close>, so
  its size hint is the default 16; the bounded-sequence iterator over \<open>[1, 2, 3]\<close>
  reports 3; the hints differ and \<open>Equal\<close> returns false without collecting either.
\<close>

theorem Equal_default_hint_short_circuit:
  "Collect (FuncIterator (funcIteratorOf [1, 2, 3 :: go_int]))
     = Some (Inr (FuncIterator (Func (sconst None_opt)), [1, 2, 3]))
   \<and> Collect (iteratorOver [1, 2, 3 :: go_int])
     = Some (Inr (SliceIterator \<lparr>Values = [1, 2, 3], index = 3\<rparr>, [1, 2, 3]))
   \<and> getSizeHint (FuncIterator (funcIteratorOf [1, 2, 3 :: go_int])) = 16
   \<and> getSizeHint (iteratorOver [1, 2, 3 :: go_int]) = 3
   \<and> Equal int_ne (FuncIterator (funcIteratorOf [1, 2, 3 :: go_int])) (iteratorOver [1, 2, 3])
     = Some (Inr (FuncIterator (funcIteratorOf [1, 2, 3]), iteratorOver [1, 2, 3], False))"
  using Collect_funcIteratorOf_123
  by (simp add: Collect_iteratorOver getSizeHint_iteratorOver Equal_def defaultSize_def)

section \<open>Sort\<close>

text \<open>On a fresh bounded-sequence iterator \<open>Sort\<close> returns, and its result is tagged.\<close>

lemma Sort_iteratorOver:
  "\<exists>r. Sort pkg (iteratorOver S) s
         = Some (Inr (SliceIterator \<lparr>Values = S, index = length S\<rparr>, r)) \<and> is_sorted r"
  by (simp add: Sort_def iteratorOver_def Collect_Slice)

text \<open>
  Claim C5. \<open>Sort\<close> is idempotent through its tag: whenever \<open>Sort\<close> returns, on any
  iterator and with any flag, its result carries the tag \<open>sorted\<close>; and \<open>Sort\<close>
  applied to that result, with any flag and any sorting functions, returns it as it is:
  the result is the argument, which has not been pulled from.
\<close>

theorem Sort_idempotent:
  assumes "Sort pkg iter s = Some (Inr (iter', r))"
  shows "is_sorted r \<and> Sort pkg' r s' = Some (Inr (r, r))"
proof -
  have "is_sorted r"
    using assms by (auto simp: Sort_def split: if_splits option.splits sum.splits)
  then show ?thesis by (simp add: Sort_def)
qed

theorem Sort_idempotent_witness:
  "Sort \<lparr>sort_IsSorted = sorted_wrt (\<le>), sort_Stable = sort, sort_Sort = sort\<rparr>
        (iteratorOver [9, 102, 41, 14, 0 :: int]) False
     = Some (Inr (SliceIterator \<lparr>Values = [9, 102, 41, 14, 0], index = 5\<rparr>,
                  sorted (SliceIterator \<lparr>Values = [0, 9, 14, 41, 102], index = 0\<rparr>)))
   \<and> is_sorted (sorted (SliceIterator \<lparr>Values = [0, 9, 14, 41, 102 :: int], index = 0\<rparr>))
   \<and> Sort \<lparr>sort_IsSorted = sorted_wrt (\<le>), sort_Stable = sort, sort_Sort = sort\<rparr>
        (sorted (SliceIterator \<lparr>Values = [0, 9, 14, 41, 102 :: int], index = 0\<rparr>)) True
     = Some (Inr (sorted (SliceIterator \<lparr>Values = [0, 9, 14, 41, 102], index = 0\<rparr>),
                  sorted (SliceIterator \<lparr>Values = [0, 9, 14, 41, 102], index = 0\<rparr>)))"
proof -
  have run: "Sort \<lparr>sort_IsSorted = sorted_wrt (\<le>), sort_Stable = sort, sort_Sort = sort\<rparr>
        (iteratorOver [9, 102, 41, 14, 0 :: int]) False
     = Some (Inr (SliceIterator \<lparr>Values = [9, 102, 41, 14, 0], index = 5\<rparr>,
                  sorted (SliceIterator \<lparr>Values = [0, 9, 14, 41, 102], index = 0\<rparr>)))"
    by (simp add: Sort_def iteratorOver_def Collect_Slice)
  from Sort_idempotent [OF run] run show ?thesis by blast
qed

section \<open>Map\<close>

lemma ForEach_Collect_Map:
  assumes "Collect iter = Some (Inr (iter', xs))"
  shows "ForEach iter (\<lambda>x vs. (vs @ [f x], False)) [] = Some (Inr (iter', map f xs))"
proof -
  from assms have run: "ForEach iter (\<lambda>t slice. (slice @ [t], False)) [] = Some (Inr (iter', xs))"
    by (simp add: Collect_def allocate_def)
  from ForEach_sim [OF run, of "\<lambda>s t. t = map f s" "[]" "\<lambda>x vs. (vs @ [f x], False)"]
  obtain r' where r': "ForEach iter (\<lambda>x vs. (vs @ [f x], False)) [] = Some r'"
    and rel: "rel_sum (=) (\<lambda>(i, s') (i', t'). i = i' \<and> t' = map f s') (Inr (iter', xs)) r'"
    by auto
  from rel have "r' = Inr (iter', map f xs)"
    by (cases r') auto
  with r' show ?thesis by simp
qed

text \<open>On a fresh bounded-sequence iterator over \<open>S\<close>, \<open>Map\<close> returns.\<close>

lemma Map_iteratorOver:
  "Map (iteratorOver S) f
     = Some (Inr (SliceIterator \<lparr>Values = S, index = length S\<rparr>, iteratorOver (map f S)))"
  using ForEach_Collect_Map [OF Collect_iteratorOver, of S f]
  by (simp add: Map_def allocate_def iteratorOver_def)

text \<open>
  Claim C6. \<open>Map\<close> preserves length and order: for every iterator \<open>iter\<close> from which
  \<open>Collect\<close> would return the sequence \<open>xs\<close>, and every function \<open>f\<close>, \<open>Map\<close>
  returns (draining \<open>iter\<close> as \<open>Collect\<close> would) a fresh bounded-sequence iterator
  whose collected sequence has the length of \<open>xs\<close> and, at every index \<open>i\<close>, the
  element \<open>f (xs ! i)\<close>.
\<close>

theorem Map_preserves_length_and_order:
  assumes "Collect iter = Some (Inr (iter', xs))"
  shows "Map iter f = Some (Inr (iter', iteratorOver (map f xs)))
    \<and> Collect (iteratorOver (map f xs))
        = Some (Inr (SliceIterator \<lparr>Values = map f xs, index = length xs\<rparr>, map f xs))
    \<and> length (map f xs) = length xs
    \<and> (\<forall>i < length xs. map f xs ! i = f (xs ! i))"
  using ForEach_Collect_Map [OF assms, of f]
  by (simp add: Map_def allocate_def iteratorOver_def Collect_Slice)

theorem Map_preserves_length_and_order_witness:
  "Collect (iteratorOver [0, 1, 2 :: go_int])
     = Some (Inr (SliceIterator \<lparr>Values = [0, 1, 2], index = 3\<rparr>, [0, 1, 2]))
   \<and> Map (iteratorOver [0, 1, 2 :: go_int]) (\<lambda>x. x * x)
     = Some (Inr (SliceIterator \<lparr>Values = [0, 1, 2], index = 3\<rparr>, iteratorOver [0, 1, 4 :: go_int]))
   \<and> Collect (iteratorOver [0, 1, 4 :: go_int])
     = Some (Inr (SliceIterator \<lparr>Values = [0, 1, 4], index = 3\<rparr>, [0, 1, 4]))"
proof -
  have c: "Collect (iteratorOver [0, 1, 2 :: go_int])
     = Some (Inr (SliceIterator \<lparr>Values = [0, 1, 2], index = 3\<rparr>, [0, 1, 2]))"
    by (simp add: Collect_iteratorOver)
  from Map_preserves_length_and_order [OF c, of "\<lambda>x. x * x"] c show ?thesis
    by simp
qed

section \<open>Reduce\<close>

lemma ForEach_Collect_Reduce:
  assumes "Collect iter = Some (Inr (iter', xs))"
  shows "ForEach iter (\<lambda>x accumulator. (fn accumulator x, False)) z = Some (Inr (iter', foldl fn z xs))"
proof -
  from assms have run: "ForEach iter (\<lambda>t slice. (slice @ [t], False)) [] = Some (Inr (iter', xs))"
    by (simp add: Collect_def allocate_def)
  from ForEach_sim [OF run, of "\<lambda>s t. t = foldl fn z s" z "\<lambda>x accumulator. (fn accumulator x, False)"]
  obtain r' where r': "ForEach iter (\<lambda>x accumulator. (fn accumulator x, False)) z = Some r'"
    and rel: "rel_sum (=) (\<lambda>(i, s') (i', t'). i = i' \<and> t' = foldl fn z s') (Inr (iter', xs)) r'"
    by auto
  from rel have "r' = Inr (iter', foldl fn z xs)"
    by (cases r') auto
  with r' show ?thesis by simp
qed

lemma Reduce_range_foldl: "Reduce_range reducer accum list = foldl reducer accum list"
  by (induction list arbitrary: accum) simp_all

lemma Reduce_Collect:
  "Collect iter = Some (Inr (iter', xs)) \<Longrightarrow> Reduce iter fn = Some (Inr (iter', foldl fn 0 xs))"
  by (simp add: Reduce_def ForEach_Collect_Reduce)

lemma Reduce_iteratorOver:
  "Reduce (iteratorOver S) fn = Some (Inr (SliceIterator \<lparr>Values = S, index = length S\<rparr>, foldl fn 0 S))"
  by (rule Reduce_Collect [OF Collect_iteratorOver])

text \<open>
  Claim C7. \<open>Reduce\<close> is a left fold from the zero value of the result type, over the
  elements in iteration order: for every iterator from which \<open>Collect\<close> would return
  \<open>xs\<close>, \<open>Reduce\<close> returns \<open>foldl fn 0 xs\<close>. On an empty iterator it returns the
  zero value, and over \<open>[0, 1, 2, 3, 4, 5]\<close> with addition it returns 15. The same
  holds of \<open>Reduce\<close> over a slice, which the example of the sum calls.
\<close>

theorem Reduce_left_fold:
  "(Collect iter = Some (Inr (iter', xs)) \<longrightarrow> Reduce iter fn = Some (Inr (iter', foldl fn 0 xs)))
   \<and> Reduce (iteratorOver []) fn' = Some (Inr (iteratorOver [], 0))
   \<and> Reduce (iteratorOver [0, 1, 2, 3, 4, 5 :: go_int]) (\<lambda>accum cur. accum + cur)
       = Some (Inr (SliceIterator \<lparr>Values = [0, 1, 2, 3, 4, 5], index = 6\<rparr>, 15 :: go_int))
   \<and> Reduce_list list (Some reducer) = Inr (foldl reducer 0 list)
   \<and> Reduce_list [0, 1, 2, 3, 4, 5 :: go_int] (Some (\<lambda>accum cur. accum + cur)) = Inr (15 :: go_int)"
proof -
  have empty: "Reduce (iteratorOver []) fn' = Some (Inr (iteratorOver [], 0))"
    using Reduce_iteratorOver [of "[]" fn'] by (simp add: iteratorOver_def)
  have sum: "Reduce (iteratorOver [0, 1, 2, 3, 4, 5 :: go_int]) (\<lambda>accum cur. accum + cur)
       = Some (Inr (SliceIterator \<lparr>Values = [0, 1, 2, 3, 4, 5], index = 6\<rparr>, 15 :: go_int))"
    by (simp add: Reduce_iteratorOver)
  show ?thesis
    using empty sum by (simp add: Reduce_Collect Reduce_list_def Reduce_range_foldl)
qed

theorem Reduce_left_fold_witness:
  "Collect (iteratorOver [0, 1, 2 :: go_int])
     = Some (Inr (SliceIterator \<lparr>Values = [0, 1, 2], index = 3\<rparr>, [0, 1, 2]))
   \<and> Reduce (iteratorOver [0, 1, 2 :: go_int]) (\<lambda>accum cur. accum + cur * cur)
     = Some (Inr (SliceIterator \<lparr>Values = [0, 1, 2], index = 3\<rparr>, 5 :: go_int))"
proof -
  have c: "Collect (iteratorOver [0, 1, 2 :: go_int])
     = Some (Inr (SliceIterator \<lparr>Values = [0, 1, 2], index = 3\<rparr>, [0, 1, 2]))"
    by (simp add: Collect_iteratorOver)
  have "Reduce (iteratorOver [0, 1, 2 :: go_int]) (\<lambda>accum cur. accum + cur * cur)
     = Some (Inr (SliceIterator \<lparr>Values = [0, 1, 2], index = 3\<rparr>,
                  foldl (\<lambda>accum cur. accum + cur * cur) (0 :: go_int) [0, 1, 2]))"
    by (rule Reduce_left_fold [THEN conjunct1, THEN mp, OF c])
  with c show ?thesis by simp
qed

section \<open>Chain\<close>

lemma Chain_loop_map_Some:
  "Chain_loop f (map Some fns) = Inr (\<lambda>x. f (foldr (\<lambda>g y. g y) fns x))"
  by (induction fns arbitrary: f) simp_all

text \<open>
  Claim C8. \<open>Chain\<close> composes its functions right to left: for all non-nil functions
  \<open>f1, ..., fn\<close> of one type it returns, without a panic, the function that maps
  every \<open>x\<close> to \<open>f1 (f2 (... (fn x)))\<close>, so that the function declared last runs
  first; \<open>Chain(halve, square, addOne)(5)\<close> is 18.
\<close>

theorem Chain_right_to_left:
  "(\<exists>chain. Chain (map Some fns) = Inr chain \<and> (\<forall>x. chain x = foldr (\<lambda>f y. f y) fns x))
   \<and> (\<exists>chain. Chain [Some f1, Some f2, Some f3] = Inr chain \<and> (\<forall>x. chain x = f1 (f2 (f3 x))))
   \<and> (\<exists>chain. Chain [Some halve, Some square, Some addOne] = Inr chain \<and> chain 5 = 18)"
proof (intro conjI)
  show "\<exists>chain. Chain (map Some fns) = Inr chain \<and> (\<forall>x. chain x = foldr (\<lambda>f y. f y) fns x)"
    by (simp add: Chain_def Chain_loop_map_Some)
  show "\<exists>chain. Chain [Some f1, Some f2, Some f3] = Inr chain \<and> (\<forall>x. chain x = f1 (f2 (f3 x)))"
    by (simp add: Chain_def)
  show "\<exists>chain. Chain [Some halve, Some square, Some addOne] = Inr chain \<and> chain 5 = 18"
    by (simp add: Chain_def halve_def square_def addOne_def)
qed

section \<open>Result\<close>

text \<open>
  Claim C9. The zero value of \<open>Result\<close> is erroneous with no error object: its
  \<open>Ok()\<close> is false and its \<open>Err()\<close> is the nil error (and its \<open>Get()\<close> the zero
  value).
\<close>

theorem Result_zero_erroneous_without_error:
  "Result_Ok (Result_zero :: 'a::zero Result) = False
   \<and> Result_Err (Result_zero :: 'a::zero Result) = None
   \<and> Result_Get (Result_zero :: 'a::zero Result) = 0"
  by (simp add: Result_Ok_def Result_Err_def Result_Get_def Result_zero_def IsSome_def Get_def)

text \<open>
  Claim C10. \<open>String()\<close> on the zero value of \<open>Result\<close> panics with a nil
  dereference. \<open>String()\<close> panics exactly on the results that are not ok and whose
  error is nil: on an ok result it returns the formatted value, on a result with a
  non-nil error the error's message.
\<close>

theorem Result_String_zero_panics:
  "Result_String fmt (Result_zero :: 'a::zero Result)
     = Inl ''runtime error: invalid memory address or nil pointer dereference''
   \<and> ((\<exists>p. Result_String fmt r = Inl p) = (\<not> Result_Ok r \<and> Result_Err r = None))
   \<and> Result_String fmt (Ok v) = Inr (fmt v)
   \<and> Result_String fmt' (Err (Some m) :: 'a::zero Result) = Inr m"
  by (auto simp: Result_String_def Result_Ok_def Result_Err_def Result_zero_def IsSome_def
        error_Error_def Option_String_def Expect_def Ok_def Err_def Some_opt_def None_opt_def
      split: option.splits)

section \<open>WaitForNext under a cancelled context\<close>

lemma Slice_Next_nonempty:
  "index s < length (Values s) \<Longrightarrow>
   Slice_Next s = (Some_opt (Values s ! index s), s\<lparr>index := index s + 1\<rparr>)"
  by (simp add: Slice_Next_def)

text \<open>
  Claim C1 says that \<open>WaitForNext\<close>, given a context that is already cancelled and a
  source that is not empty, returns \<open>None\<close> and consumes nothing. On the
  bounded-sequence iterator over \<open>[1, 2, 3]\<close> it does not: both the method of
  \<open>Slice\<close> and the package-level function return \<open>Some 1\<close> and move the cursor
  to 1.
\<close>

theorem WaitForNext_cancelled_counterexample:
  "Slice_WaitForNext (Context True) \<lparr>Values = [1, 2, 3 :: go_int], index = 0\<rparr>
     = (Some_opt 1, \<lparr>Values = [1, 2, 3], index = 1\<rparr>)
   \<and> Slice_WaitForNext (Context True) \<lparr>Values = [1, 2, 3 :: go_int], index = 0\<rparr>
     \<noteq> (None_opt, \<lparr>Values = [1, 2, 3], index = 0\<rparr>)
   \<and> WaitForNext (Context True) (iteratorOver [1, 2, 3 :: go_int])
     = {Inr (Some_opt 1, SliceIterator \<lparr>Values = [1, 2, 3], index = 1\<rparr>)}
   \<and> Inr (None_opt, iteratorOver [1, 2, 3 :: go_int])
     \<notin> WaitForNext (Context True) (iteratorOver [1, 2, 3 :: go_int])"
  by (simp add: Slice_WaitForNext_def Slice_Next_def WaitForNext_def iteratorOver_def
        Some_opt_def None_opt_def)

text \<open>
  Claim C1, amended. On a bounded-sequence iterator that is not exhausted,
  \<open>WaitForNext\<close> (the method, and the package-level function, which calls it) does not
  look at the context: cancelled or not, it returns the element at the cursor and
  advances the cursor by one, as \<open>Next\<close> does. On a queue-backed iterator with a value
  in the queue and a cancelled context, both cases of the \<open>select\<close> can proceed, and
  it either returns the oldest value, removed from the queue, or returns \<open>None\<close> and
  leaves the queue as it was.
\<close>

theorem WaitForNext_under_cancellation:
  assumes "index s < length (Values s)"
  shows "Slice_WaitForNext ctx s = (Some_opt (Values s ! index s), s\<lparr>index := index s + 1\<rparr>)
    \<and> WaitForNext ctx (SliceIterator s)
        = {Inr (Some_opt (Values s ! index s), SliceIterator (s\<lparr>index := index s + 1\<rparr>))}
    \<and> Chan_WaitForNext (Context True) (Chan (v # vs) cl)
        = {(Some_opt v, Chan vs cl), (None_opt, Chan (v # vs) cl)}
    \<and> WaitForNext (Context True) (ChanIterator (Chan (v # vs) cl))
        = {Inr (Some_opt v, ChanIterator (Chan vs cl)),
           Inr (None_opt, ChanIterator (Chan (v # vs) cl))}"
  using assms
  by (simp add: Slice_WaitForNext_def Slice_Next_nonempty WaitForNext_def Chan_WaitForNext_def
        insert_commute)

theorem WaitForNext_under_cancellation_witness:
  "index \<lparr>Values = [1, 2, 3 :: go_int], index = 0\<rparr> < length (Values \<lparr>Values = [1, 2, 3 :: go_int], index = 0\<rparr>)
   \<and> Slice_WaitForNext (Context True) \<lparr>Values = [1, 2, 3 :: go_int], index = 0\<rparr>
     = (Some_opt 1, \<lparr>Values = [1, 2, 3], index = 1\<rparr>)
   \<and> WaitForNext (Context True) (SliceIterator \<lparr>Values = [1, 2, 3 :: go_int], index = 0\<rparr>)
     = {Inr (Some_opt 1, SliceIterator \<lparr>Values = [1, 2, 3], index = 1\<rparr>)}
   \<and> Chan_WaitForNext (Context True) (Chan [4, 5 :: go_int] False)
     = {(Some_opt 4, Chan [5] False), (None_opt, Chan [4, 5] False)}"
proof -
  have h: "index \<lparr>Values = [1, 2, 3 :: go_int], index = 0\<rparr> < length (Values \<lparr>Values = [1, 2, 3 :: go_int], index = 0\<rparr>)"
    by simp
  from WaitForNext_under_cancellation [OF h, of "Context True" "4 :: go_int" "[5]" False] h
  show ?thesis by simp
qed

end
